theory Spec2Isabelle
  imports Main
begin

section \<open>The header \<open>imgui_testapp_api.h\<close> as preprocessor lines\<close>

text \<open>
  The repository fragment is one C++ header. It is embedded as the list of its sixteen
  physical lines; what the lines mean is given by a small model of the C preprocessor
  (conditional inclusion, object-like macros, \<open>#pragma once\<close>) and by a reader for the
  one shape of declaration the header contains.
\<close>

datatype token = Ident string | Num nat | StrLit string | LParen | RParen | Semi

text \<open>The controlling expressions the header uses: \<open>defined(X)\<close> and \<open>||\<close>.\<close>

datatype cond = Defined string | Or cond cond

datatype line =
    PragmaOnce
  | Blank
  | Comment string
  | If cond
  | Elif cond
  | Else
  | Endif
  | Define string "token list"
  | Text "token list"

definition header_path :: string where
  "header_path = ''example_imgui_lib/imgui_testapp_api.h''"

definition win32_body :: "token list" where
  "win32_body =
     [Ident ''extern'', StrLit ''C'',
      Ident ''__declspec'', LParen, Ident ''dllexport'', RParen]"

definition gnu_body :: "token list" where
  "gnu_body =
     [Ident ''extern'', StrLit ''C'',
      Ident ''__attribute__'', LParen, LParen,
        Ident ''visibility'', LParen, StrLit ''default'', RParen,
      RParen, RParen]"

definition plain_body :: "token list" where
  "plain_body = [Ident ''extern'', StrLit ''C'']"

definition imgui_testapp_api_h :: "line list" where
  "imgui_testapp_api_h =
     [PragmaOnce,
      Blank,
      Comment ''Public C ABI entrypoint for hosting the Dear ImGui GLFW+Vulkan sample.'',
      Comment '''',
      Comment ''Intended for consumption from other languages (e.g. C# via P/Invoke).'',
      Comment ''The function blocks until the window is closed.'',
      Blank,
      If (Defined ''_WIN32''),
      Define ''IMGUI_TESTAPP_API'' win32_body,
      Elif (Or (Defined ''__GNUC__'') (Defined ''__clang__'')),
      Define ''IMGUI_TESTAPP_API'' gnu_body,
      Else,
      Define ''IMGUI_TESTAPP_API'' plain_body,
      Endif,
      Blank,
      Text [Ident ''IMGUI_TESTAPP_API'', Ident ''int'', Ident ''imgui_testapp_run'',
            LParen, Ident ''void'', RParen, Semi]]"

section \<open>The preprocessor\<close>

text \<open>
  A macro table is an association list of object-like macros, newest first. The
  toolchain's predefined macros (and any given on the command line) are the initial table.
\<close>

type_synonym macro_table = "(string \<times> token list) list"

definition is_defined :: "macro_table \<Rightarrow> string \<Rightarrow> bool" where
  "is_defined ms n = (case map_of ms n of None \<Rightarrow> False | Some b \<Rightarrow> True)"

fun eval_cond :: "macro_table \<Rightarrow> cond \<Rightarrow> bool" where
  "eval_cond ms (Defined n) = is_defined ms n"
| "eval_cond ms (Or a b) = (if eval_cond ms a then True else eval_cond ms b)"

text \<open>
  Macro replacement with rescanning. A macro's name is not replaced again inside its own
  replacement (the names being replaced are carried in \<open>hidden\<close>), which is also why the
  recursion ends: each nested replacement hides one more name of the finite table.
\<close>

function expand_tok :: "string list \<Rightarrow> macro_table \<Rightarrow> token \<Rightarrow> token list" where
  "expand_tok hidden ms (Ident n) =
     (case (if n \<in> set hidden then None else map_of ms n) of
        None \<Rightarrow> [Ident n]
      | Some body \<Rightarrow> concat (map (expand_tok (n # hidden) ms) body))"
| "expand_tok hidden ms (Num k) = [Num k]"
| "expand_tok hidden ms (StrLit s) = [StrLit s]"
| "expand_tok hidden ms LParen = [LParen]"
| "expand_tok hidden ms RParen = [RParen]"
| "expand_tok hidden ms Semi = [Semi]"
  by pat_completeness auto

termination
proof (relation "measure (\<lambda>(hidden, ms, t). card (fst ` set ms - set hidden))")
  show "wf (measure (\<lambda>(hidden, ms, t). card (fst ` set ms - set hidden)))"
    by simp
next
  fix hidden :: "string list" and ms :: macro_table and n body t
  assume look: "(if n \<in> set hidden then None else map_of ms n) = Some body"
  have fresh: "n \<notin> set hidden"
    using look by (simp split: if_splits)
  have "map_of ms n = Some body"
    using look by (simp split: if_splits)
  then have "(n, body) \<in> set ms"
    by (rule map_of_SomeD)
  then have "n \<in> fst ` set ms"
    by force
  with fresh have "fst ` set ms - set (n # hidden) \<subset> fst ` set ms - set hidden"
    by auto
  then have "card (fst ` set ms - set (n # hidden)) < card (fst ` set ms - set hidden)"
    by (intro psubset_card_mono) simp_all
  then show "((n # hidden, ms, t), (hidden, ms, Ident n))
        \<in> measure (\<lambda>(hidden, ms, t). card (fst ` set ms - set hidden))"
    by simp
qed

definition expand :: "macro_table \<Rightarrow> token list \<Rightarrow> token list" where
  "expand ms ts = concat (map (expand_tok [] ms) ts)"

text \<open>
  One entry of the conditional stack per open \<open>#if\<close>: its group is being taken, it is
  skipped but a later \<open>#elif\<close>/\<open>#else\<close> may still be taken, or it is skipped for good
  (an earlier group was taken, or the whole conditional sits in a skipped group).
\<close>

datatype group = Taking | Pending | Finished

datatype pp_error = Unbalanced | Redefined string

record pp_state =
  macros :: macro_table
  conds :: "group list"
  emitted :: "token list"
  once_files :: "string list"
  errors :: "pp_error list"

definition initial :: "macro_table \<Rightarrow> pp_state" where
  "initial env =
     \<lparr>macros = env, conds = [], emitted = [], once_files = [], errors = []\<rparr>"

definition active :: "pp_state \<Rightarrow> bool" where
  "active st = list_all (\<lambda>g. g = Taking) (conds st)"

definition define_macro :: "string \<Rightarrow> token list \<Rightarrow> pp_state \<Rightarrow> pp_state" where
  "define_macro n body st =
     (case map_of (macros st) n of
        None \<Rightarrow> st\<lparr>macros := (n, body) # macros st\<rparr>
      | Some old \<Rightarrow>
          if old = body then st
          else st\<lparr>macros := (n, body) # macros st, errors := errors st @ [Redefined n]\<rparr>)"

fun process_line :: "string \<Rightarrow> line \<Rightarrow> pp_state \<Rightarrow> pp_state" where
  "process_line path PragmaOnce st =
     (if active st then st\<lparr>once_files := path # once_files st\<rparr> else st)"
| "process_line path Blank st = st"
| "process_line path (Comment c) st = st"
| "process_line path (If c) st =
     (if active st
      then st\<lparr>conds := (if eval_cond (macros st) c then Taking else Pending) # conds st\<rparr>
      else st\<lparr>conds := Finished # conds st\<rparr>)"
| "process_line path (Elif c) st =
     (case conds st of
        [] \<Rightarrow> st\<lparr>errors := errors st @ [Unbalanced]\<rparr>
      | Taking # gs \<Rightarrow> st\<lparr>conds := Finished # gs\<rparr>
      | Pending # gs \<Rightarrow>
          st\<lparr>conds := (if eval_cond (macros st) c then Taking else Pending) # gs\<rparr>
      | Finished # gs \<Rightarrow> st)"
| "process_line path Else st =
     (case conds st of
        [] \<Rightarrow> st\<lparr>errors := errors st @ [Unbalanced]\<rparr>
      | Taking # gs \<Rightarrow> st\<lparr>conds := Finished # gs\<rparr>
      | Pending # gs \<Rightarrow> st\<lparr>conds := Taking # gs\<rparr>
      | Finished # gs \<Rightarrow> st)"
| "process_line path Endif st =
     (case conds st of
        [] \<Rightarrow> st\<lparr>errors := errors st @ [Unbalanced]\<rparr>
      | g # gs \<Rightarrow> st\<lparr>conds := gs\<rparr>)"
| "process_line path (Define n body) st =
     (if active st then define_macro n body st else st)"
| "process_line path (Text ts) st =
     (if active st then st\<lparr>emitted := emitted st @ expand (macros st) ts\<rparr> else st)"

fun process_lines :: "string \<Rightarrow> line list \<Rightarrow> pp_state \<Rightarrow> pp_state" where
  "process_lines path [] st = st"
| "process_lines path (l # ls) st = process_lines path ls (process_line path l st)"

text \<open>
  \<open>#include\<close> of a file: a file that has marked itself with \<open>#pragma once\<close> is not read
  again; any other file is read line by line.
\<close>

definition include_file :: "string \<Rightarrow> line list \<Rightarrow> pp_state \<Rightarrow> pp_state" where
  "include_file path ls st =
     (if path \<in> set (once_files st) then st else process_lines path ls st)"

definition include_header :: "pp_state \<Rightarrow> pp_state" where
  "include_header = include_file header_path imgui_testapp_api_h"

text \<open>A translation unit that includes the header \<open>k\<close> times in a row.\<close>

fun include_times :: "nat \<Rightarrow> pp_state \<Rightarrow> pp_state" where
  "include_times 0 st = st"
| "include_times (Suc k) st = include_times k (include_header st)"

section \<open>Reading the declaration\<close>

text \<open>
  After preprocessing, the header is a token sequence. Its statements end at \<open>;\<close>, and a
  statement is read as a function declaration of the shape the header uses: an optional
  linkage specification \<open>extern "..."\<close>, an optional \<open>__declspec(x)\<close> or
  \<open>__attribute__((k("v")))\<close>, a return type, a name, and an empty parameter list written
  \<open>(void)\<close> or \<open>()\<close>.
\<close>

datatype ctype = CVoid | CInt | CUnsigned

datatype attr = Declspec string | GnuAttribute string string

record fun_decl =
  linkage :: "string option"
  attribute :: "attr option"
  ret :: ctype
  fname :: string
  params :: "ctype list"

fun split_stmts :: "token list \<Rightarrow> token list \<Rightarrow> token list list" where
  "split_stmts acc [] = (if acc = [] then [] else [acc])"
| "split_stmts acc (Semi # ts) = acc # split_stmts [] ts"
| "split_stmts acc (t # ts) = split_stmts (acc @ [t]) ts"

definition type_named :: "string \<Rightarrow> ctype option" where
  "type_named n =
     (if n = ''void'' then Some CVoid
      else if n = ''int'' then Some CInt
      else if n = ''unsigned'' then Some CUnsigned
      else None)"

definition read_linkage :: "token list \<Rightarrow> string option \<times> token list" where
  "read_linkage ts =
     (case ts of
        Ident e # StrLit l # rest \<Rightarrow> if e = ''extern'' then (Some l, rest) else (None, ts)
      | _ \<Rightarrow> (None, ts))"

definition read_attribute :: "token list \<Rightarrow> attr option \<times> token list" where
  "read_attribute ts =
     (case ts of
        Ident a # LParen # Ident x # RParen # rest \<Rightarrow>
          if a = ''__declspec'' then (Some (Declspec x), rest) else (None, ts)
      | Ident a # LParen # LParen # Ident k # LParen # StrLit v # RParen # RParen # RParen # rest \<Rightarrow>
          if a = ''__attribute__'' then (Some (GnuAttribute k v), rest) else (None, ts)
      | _ \<Rightarrow> (None, ts))"

definition read_signature :: "token list \<Rightarrow> (ctype \<times> string \<times> ctype list) option" where
  "read_signature ts =
     (case ts of
        [Ident t, Ident n, LParen, RParen] \<Rightarrow>
          (case type_named t of None \<Rightarrow> None | Some ty \<Rightarrow> Some (ty, n, []))
      | [Ident t, Ident n, LParen, Ident v, RParen] \<Rightarrow>
          (case type_named t of
             None \<Rightarrow> None
           | Some ty \<Rightarrow> if v = ''void'' then Some (ty, n, []) else None)
      | _ \<Rightarrow> None)"

definition read_decl :: "token list \<Rightarrow> fun_decl option" where
  "read_decl ts =
     (case read_linkage ts of (l, r1) \<Rightarrow>
      case read_attribute r1 of (a, r2) \<Rightarrow>
      case read_signature r2 of
        None \<Rightarrow> None
      | Some (ty, n, ps) \<Rightarrow>
          Some \<lparr>linkage = l, attribute = a, ret = ty, fname = n, params = ps\<rparr>)"

text \<open>
  The declarations a translation unit sees when it includes the header once, on a
  toolchain whose macro table is \<open>env\<close>. A statement that is not a declaration of the
  shape above reads as \<open>None\<close>.
\<close>

definition declarations_in :: "pp_state \<Rightarrow> fun_decl option list" where
  "declarations_in st = map read_decl (split_stmts [] (emitted st))"

definition declarations :: "macro_table \<Rightarrow> fun_decl option list" where
  "declarations env = declarations_in (include_header (initial env))"

text \<open>The macro the header defines, as the table holds it after the header.\<close>

definition api_macro :: "macro_table \<Rightarrow> token list option" where
  "api_macro env = map_of (macros (include_header (initial env))) ''IMGUI_TESTAPP_API''"

text \<open>
  The identifiers the declaration is made of. A toolchain that defines one of them as a
  macro changes what the declaration says, so the statements below are about tables
  that leave them alone.
\<close>

definition declaration_words :: "string list" where
  "declaration_words =
     [''extern'', ''__declspec'', ''dllexport'', ''__attribute__'', ''visibility'',
      ''int'', ''imgui_testapp_run'', ''void'']"

definition plain_words :: "macro_table \<Rightarrow> bool" where
  "plain_words env = list_all (\<lambda>n. map_of env n = None) declaration_words"

text \<open>
  Does the declaration carry a marker that puts the symbol in the artifact's public
  symbol table: \<open>__declspec(dllexport)\<close> or \<open>__attribute__((visibility("default")))\<close>.
\<close>

definition marks_export :: "fun_decl \<Rightarrow> bool" where
  "marks_export d =
     (case attribute d of
        None \<Rightarrow> False
      | Some (Declspec x) \<Rightarrow> x = ''dllexport''
      | Some (GnuAttribute k v) \<Rightarrow> k = ''visibility'' \<and> v = ''default'')"

text \<open>
  The name the linker sees. A function with C language linkage keeps its declared name;
  any other function gets whatever the C++ implementation's mangling scheme makes of
  its declaration.
\<close>

definition symbol_name :: "(fun_decl \<Rightarrow> string) \<Rightarrow> fun_decl \<Rightarrow> string" where
  "symbol_name mangle d = (if linkage d = Some ''C'' then fname d else mangle d)"



text \<open>Toolchains used as concrete inputs: MinGW GCC on Windows, GCC on Linux, and one
  that defines none of the three macros the header asks about.\<close>

definition mingw_env :: macro_table where
  "mingw_env = [(''_WIN32'', [Num 1]), (''__GNUC__'', [Num 13])]"

definition linux_gcc_env :: macro_table where
  "linux_gcc_env = [(''__GNUC__'', [Num 13]), (''__linux__'', [Num 1])]"

definition bare_env :: macro_table where
  "bare_env = [(''__cplusplus'', [Num 201703])]"

section \<open>The call behind the declaration\<close>

text \<open>
  The header only declares \<open>imgui_testapp_run\<close>; the function's body and the GUI
  run-loop it drives are not among the given sources. What the specification says of a
  call is modelled below, from its words, so that its statements about a call can be
  examined. Every definition of this section is such a model.
\<close>

text \<open>Modelled from the spec: the three failure kinds of its error taxonomy (section 7):
  initialization failure of the windowing or graphics backend, invalid re-entrant
  invocation, unexpected run-loop termination. The implementation is missing.\<close>

datatype failure = InitFailure | ReentrantCall | UnexpectedTermination

text \<open>Modelled from the spec: what the external run-loop does in one iteration: it
  draws a frame and goes on, it sees the window closed by the user, or it ends
  unexpectedly. The run-loop is missing from the sources.\<close>

datatype loop_event = FrameDrawn | WindowClosed | LoopAborted

text \<open>Modelled from the spec: whether the windowing and the graphics backend can be
  initialized in the environment of the call. The backends are missing.\<close>

record backend =
  windowing_ok :: bool
  graphics_ok :: bool

text \<open>Modelled from the spec: the process-wide state a call can touch: the windows
  and graphics contexts that exist, and whether a run is in progress (the process-wide
  guard of section 5). The implementation is missing.\<close>

record process =
  windows :: nat
  contexts :: nat
  running :: bool

text \<open>Modelled from the spec: the two states of a call that can be observed after the
  events seen so far: control is still inside it (\<open>Running\<close> in the spec's
  Idle/Running/Terminated), or it has returned a result. The implementation is missing.\<close>

datatype 'a call = Blocked process | Returned 'a process

text \<open>Modelled from the spec: the collaborator's blocking "start and run until closed"
  operation (section 6), over the events of the window so far: it goes on while frames
  are drawn, ends normally when the window is closed, ends with a failure when it is
  aborted, and has not ended (\<open>None\<close>) when the events run out first. The run-loop is
  missing.\<close>

fun run_loop :: "loop_event list \<Rightarrow> (failure + unit) option" where
  "run_loop [] = None"
| "run_loop (FrameDrawn # es) = run_loop es"
| "run_loop (WindowClosed # es) = Some (Inr ())"
| "run_loop (LoopAborted # es) = Some (Inl UnexpectedTermination)"

text \<open>Modelled from the spec: creating the window (section 4.1, side effects); it fails
  when the windowing backend cannot be initialized. The implementation is missing.\<close>

definition create_window :: "backend \<Rightarrow> process \<Rightarrow> failure + process" where
  "create_window b p =
     (if windowing_ok b then Inr (p\<lparr>windows := Suc (windows p)\<rparr>) else Inl InitFailure)"

text \<open>Modelled from the spec: creating the graphics context associated with the window;
  it fails when the graphics backend cannot be initialized. The implementation is
  missing.\<close>

definition create_context :: "backend \<Rightarrow> process \<Rightarrow> failure + process" where
  "create_context b p =
     (if graphics_ok b then Inr (p\<lparr>contexts := Suc (contexts p)\<rparr>) else Inl InitFailure)"

text \<open>Modelled from the spec: destroying the window. The implementation is missing.\<close>

definition destroy_window :: "process \<Rightarrow> process" where
  "destroy_window p = p\<lparr>windows := windows p - 1\<rparr>"

text \<open>Modelled from the spec: destroying the graphics context. The implementation is
  missing.\<close>

definition destroy_context :: "process \<Rightarrow> process" where
  "destroy_context p = p\<lparr>contexts := contexts p - 1\<rparr>"

text \<open>Modelled from the spec: the run inside the boundary, its failures still failures
  (\<open>Inl\<close>). A call made while a run is in progress is rejected at once and touches
  nothing; otherwise the guard is taken, the window and then its graphics context are
  created, the run-loop is driven to its end, and everything created is destroyed and
  the guard released before the result is handed back. The implementation is missing.\<close>

definition gui_main :: "backend \<Rightarrow> loop_event list \<Rightarrow> process \<Rightarrow> (failure + unit) call" where
  "gui_main b evs p =
     (if running p then Returned (Inl ReentrantCall) p
      else
        case create_window b (p\<lparr>running := True\<rparr>) of
          Inl f \<Rightarrow> Returned (Inl f) p
        | Inr p1 \<Rightarrow>
            (case create_context b p1 of
               Inl f \<Rightarrow> Returned (Inl f) ((destroy_window p1)\<lparr>running := False\<rparr>)
             | Inr p2 \<Rightarrow>
                 (case run_loop evs of
                    None \<Rightarrow> Blocked p2
                  | Some r \<Rightarrow>
                      Returned r ((destroy_window (destroy_context p2))\<lparr>running := False\<rparr>))))"

text \<open>Modelled from the spec: the status convention of section 4.1: \<open>0\<close> for a normal
  exit, a non-zero value for every failure. The spec fixes no particular non-zero
  values; the model uses \<open>1\<close>. The implementation is missing.\<close>

definition status_of :: "failure + unit \<Rightarrow> int" where
  "status_of r = (case r of Inr u \<Rightarrow> 0 | Inl f \<Rightarrow> 1)"

text \<open>Modelled from the spec: what can cross the boundary to the caller when a call
  ends: an integer status, or a failure that propagates as a language-level exception,
  panic or fault (the outcome section 7 rules out). The implementation is missing.\<close>

datatype outcome = Status int | Propagated failure

text \<open>Modelled from the spec: the exported function: the run, with whatever it ended
  in, a failure included, turned into the integer status at the boundary. The
  implementation is missing.\<close>

definition imgui_testapp_run :: "backend \<Rightarrow> loop_event list \<Rightarrow> process \<Rightarrow> outcome call" where
  "imgui_testapp_run b evs p =
     (case gui_main b evs p of
        Blocked q \<Rightarrow> Blocked q
      | Returned r q \<Rightarrow> Returned (Status (status_of r)) q)"

text \<open>Notions used to state the properties of a call: whether it has returned, whether
  its run-loop gets started at all, and the first event that ends the run-loop.\<close>

definition is_returned :: "'a call \<Rightarrow> bool" where
  "is_returned c = (case c of Blocked q \<Rightarrow> False | Returned s q \<Rightarrow> True)"

definition loop_started :: "backend \<Rightarrow> process \<Rightarrow> bool" where
  "loop_started b p =
     (if running p then False else if windowing_ok b then graphics_ok b else False)"

definition first_exit :: "loop_event list \<Rightarrow> loop_event option" where
  "first_exit evs = find (\<lambda>e. e \<noteq> FrameDrawn) evs"

text \<open>Concrete inputs: a machine where both backends come up, one without a usable
  graphics device, a process with nothing open, and one in which a run is in progress.\<close>

definition working_backend :: backend where
  "working_backend = \<lparr>windowing_ok = True, graphics_ok = True\<rparr>"

definition headless_backend :: backend where
  "headless_backend = \<lparr>windowing_ok = True, graphics_ok = False\<rparr>"

definition idle_process :: process where
  "idle_process = \<lparr>windows = 0, contexts = 0, running = False\<rparr>"

definition busy_process :: process where
  "busy_process = \<lparr>windows = 1, contexts = 1, running = True\<rparr>"

section \<open>What the header yields on each toolchain\<close>

lemma define_macro_fields:
  "conds (define_macro n b st) = conds st"
  "emitted (define_macro n b st) = emitted st"
  "once_files (define_macro n b st) = once_files st"
  by (simp_all add: define_macro_def split: option.split)

lemma define_macro_lookup:
  "map_of (macros (define_macro n b st)) k = (if k = n then Some b else map_of (macros st) k)"
  by (simp add: define_macro_def split: option.split)

lemma define_macro_fresh:
  "map_of (macros st) n = None \<Longrightarrow> define_macro n b st = st\<lparr>macros := (n, b) # macros st\<rparr>"
  by (simp add: define_macro_def)

lemmas pp_simps = include_header_def include_file_def imgui_testapp_api_h_def initial_def
  active_def define_macro_fields define_macro_lookup

text \<open>The replacement list of \<open>IMGUI_TESTAPP_API\<close>, branch by branch.\<close>

lemma api_macro_win32:
  "is_defined env ''_WIN32'' \<Longrightarrow> api_macro env = Some win32_body"
  by (simp add: api_macro_def pp_simps)

lemma api_macro_gnu:
  "\<not> is_defined env ''_WIN32'' \<Longrightarrow> is_defined env ''__GNUC__'' \<or> is_defined env ''__clang__''
     \<Longrightarrow> api_macro env = Some gnu_body"
  by (cases "is_defined env ''__GNUC__''") (simp_all add: api_macro_def pp_simps)

lemma api_macro_plain:
  "\<not> is_defined env ''_WIN32'' \<Longrightarrow> \<not> is_defined env ''__GNUC__''
     \<Longrightarrow> \<not> is_defined env ''__clang__'' \<Longrightarrow> api_macro env = Some plain_body"
  by (simp add: api_macro_def pp_simps)

lemma plain_wordsD:
  assumes "plain_words env"
  shows "map_of env ''extern'' = None" "map_of env ''__declspec'' = None"
    "map_of env ''dllexport'' = None" "map_of env ''__attribute__'' = None"
    "map_of env ''visibility'' = None" "map_of env ''int'' = None"
    "map_of env ''imgui_testapp_run'' = None" "map_of env ''void'' = None"
  using assms by (simp_all add: plain_words_def declaration_words_def)

text \<open>The tokens of the translation unit, branch by branch.\<close>

lemma emitted_win32:
  assumes "plain_words env" "is_defined env ''_WIN32''"
  shows "emitted (include_header (initial env)) =
     win32_body @ [Ident ''int'', Ident ''imgui_testapp_run'', LParen, Ident ''void'', RParen, Semi]"
  using assms(2)
  by (simp add: pp_simps expand_def plain_wordsD [OF assms(1)] win32_body_def)

lemma emitted_gnu:
  assumes "plain_words env" "\<not> is_defined env ''_WIN32''"
    "is_defined env ''__GNUC__'' \<or> is_defined env ''__clang__''"
  shows "emitted (include_header (initial env)) =
     gnu_body @ [Ident ''int'', Ident ''imgui_testapp_run'', LParen, Ident ''void'', RParen, Semi]"
  using assms(2,3)
  by (cases "is_defined env ''__GNUC__''")
    (simp_all add: pp_simps expand_def plain_wordsD [OF assms(1)] gnu_body_def)

lemma emitted_plain:
  assumes "plain_words env" "\<not> is_defined env ''_WIN32''"
    "\<not> is_defined env ''__GNUC__''" "\<not> is_defined env ''__clang__''"
  shows "emitted (include_header (initial env)) =
     plain_body @ [Ident ''int'', Ident ''imgui_testapp_run'', LParen, Ident ''void'', RParen, Semi]"
  using assms(2-)
  by (simp add: pp_simps expand_def plain_wordsD [OF assms(1)] plain_body_def)

text \<open>The declaration read from those tokens, branch by branch.\<close>

lemmas read_simps = declarations_def declarations_in_def read_decl_def read_linkage_def
  read_attribute_def read_signature_def type_named_def

lemma declarations_win32:
  assumes "plain_words env" "is_defined env ''_WIN32''"
  shows "declarations env =
     [Some \<lparr>linkage = Some ''C'', attribute = Some (Declspec ''dllexport''),
            ret = CInt, fname = ''imgui_testapp_run'', params = []\<rparr>]"
  by (simp add: read_simps emitted_win32 [OF assms] win32_body_def)

lemma declarations_gnu:
  assumes "plain_words env" "\<not> is_defined env ''_WIN32''"
    "is_defined env ''__GNUC__'' \<or> is_defined env ''__clang__''"
  shows "declarations env =
     [Some \<lparr>linkage = Some ''C'', attribute = Some (GnuAttribute ''visibility'' ''default''),
            ret = CInt, fname = ''imgui_testapp_run'', params = []\<rparr>]"
  by (simp add: read_simps emitted_gnu [OF assms] gnu_body_def)

lemma declarations_plain:
  assumes "plain_words env" "\<not> is_defined env ''_WIN32''"
    "\<not> is_defined env ''__GNUC__''" "\<not> is_defined env ''__clang__''"
  shows "declarations env =
     [Some \<lparr>linkage = Some ''C'', attribute = None,
            ret = CInt, fname = ''imgui_testapp_run'', params = []\<rparr>]"
  by (simp add: read_simps emitted_plain [OF assms] plain_body_def)

text \<open>Whatever the branch, one declaration with the same linkage, name and signature.\<close>

lemma declarations_shape:
  assumes "plain_words env"
  shows "\<exists>a. declarations env =
     [Some \<lparr>linkage = Some ''C'', attribute = a,
            ret = CInt, fname = ''imgui_testapp_run'', params = []\<rparr>]"
proof (cases "is_defined env ''_WIN32''")
  case True
  with assms show ?thesis by (simp add: declarations_win32)
next
  case no_win: False
  show ?thesis
  proof (cases "is_defined env ''__GNUC__'' \<or> is_defined env ''__clang__''")
    case True
    with assms no_win show ?thesis by (simp add: declarations_gnu)
  next
    case False
    with assms no_win show ?thesis by (simp add: declarations_plain)
  qed
qed

lemma bare_env_facts:
  "plain_words bare_env" "\<not> is_defined bare_env ''_WIN32''"
  "\<not> is_defined bare_env ''__GNUC__''" "\<not> is_defined bare_env ''__clang__''"
  by (simp_all add: bare_env_def plain_words_def declaration_words_def is_defined_def)

lemma mingw_env_facts:
  "plain_words mingw_env" "is_defined mingw_env ''_WIN32''" "is_defined mingw_env ''__GNUC__''"
  by (simp_all add: mingw_env_def plain_words_def declaration_words_def is_defined_def)

lemma linux_gcc_env_facts:
  "plain_words linux_gcc_env" "\<not> is_defined linux_gcc_env ''_WIN32''"
  "is_defined linux_gcc_env ''__GNUC__''"
  by (simp_all add: linux_gcc_env_def plain_words_def declaration_words_def is_defined_def)




section \<open>The declared symbol\<close>




section \<open>Export markers\<close>

text \<open>
  Claim C2, as the spec states it: in every branch of the conditional the declaration
  carries a marker for public visibility. It fails on a toolchain that defines none of
  \<open>_WIN32\<close>, \<open>__GNUC__\<close>, \<open>__clang__\<close>: the last branch attaches no marker at all.
\<close>

theorem export_marker_everywhere_counterexample:
  "\<not> (\<forall>env. plain_words env \<longrightarrow>
          map (map_option marks_export) (declarations env) = [Some True])"
proof
  assume all: "\<forall>env. plain_words env \<longrightarrow>
          map (map_option marks_export) (declarations env) = [Some True]"
  have "map (map_option marks_export) (declarations bare_env) = [Some True]"
    using all bare_env_facts(1) by blast
  moreover have "map (map_option marks_export) (declarations bare_env) = [Some False]"
    by (simp add: declarations_plain [OF bare_env_facts] marks_export_def)
  ultimately show False
    by simp
qed

text \<open>
  Claim C2, amended. The declaration carries \<open>__declspec(dllexport)\<close> when \<open>_WIN32\<close> is
  defined, \<open>__attribute__((visibility("default")))\<close> when it is not but \<open>__GNUC__\<close> or
  \<open>__clang__\<close> is, and no export or visibility marker in the remaining branch; so it is
  marked exactly when one of the three macros is defined.
\<close>

theorem export_marker_by_branch:
  assumes "plain_words env"
  shows "map (map_option attribute) (declarations env) =
           [Some (if is_defined env ''_WIN32'' then Some (Declspec ''dllexport'')
                  else if is_defined env ''__GNUC__'' \<or> is_defined env ''__clang__''
                  then Some (GnuAttribute ''visibility'' ''default'')
                  else None)]
         \<and> map (map_option marks_export) (declarations env) =
           [Some (is_defined env ''_WIN32'' \<or> is_defined env ''__GNUC__''
                  \<or> is_defined env ''__clang__'')]"
proof (cases "is_defined env ''_WIN32''")
  case True
  with assms show ?thesis
    by (simp add: declarations_win32 marks_export_def)
next
  case no_win: False
  show ?thesis
  proof (cases "is_defined env ''__GNUC__'' \<or> is_defined env ''__clang__''")
    case True
    with assms no_win show ?thesis
      by (auto simp add: declarations_gnu marks_export_def)
  next
    case False
    with assms no_win show ?thesis
      by (simp add: declarations_plain marks_export_def)
  qed
qed

theorem export_marker_by_branch_witness:
  "plain_words linux_gcc_env
   \<and> map (map_option attribute) (declarations linux_gcc_env)
       = [Some (Some (GnuAttribute ''visibility'' ''default''))]
   \<and> map (map_option marks_export) (declarations linux_gcc_env) = [Some True]"
proof -
  have h: "plain_words linux_gcc_env"
    by (rule linux_gcc_env_facts)
  show ?thesis
    using h export_marker_by_branch [OF h] linux_gcc_env_facts(2,3) by simp
qed

section \<open>Language linkage\<close>

text \<open>
  Claim C3. In every branch the declaration has C language linkage (\<open>extern "C"\<close>), so
  whatever mangling scheme the C++ implementation applies to other functions, the
  symbol is the declared name \<open>imgui_testapp_run\<close>.
\<close>

theorem c_linkage_in_every_branch:
  assumes "plain_words env"
  shows "map (map_option linkage) (declarations env) = [Some (Some ''C'')]
         \<and> map (map_option (symbol_name mangle)) (declarations env)
             = [Some ''imgui_testapp_run'']"
proof -
  obtain a where "declarations env =
     [Some \<lparr>linkage = Some ''C'', attribute = a,
            ret = CInt, fname = ''imgui_testapp_run'', params = []\<rparr>]"
    using declarations_shape [OF assms] by blast
  then show ?thesis
    by (simp add: symbol_name_def)
qed

theorem c_linkage_in_every_branch_witness:
  "plain_words bare_env
   \<and> map (map_option linkage) (declarations bare_env) = [Some (Some ''C'')]
   \<and> map (map_option (symbol_name (\<lambda>d. ''_Z'' @ fname d))) (declarations bare_env)
       = [Some ''imgui_testapp_run'']"
proof -
  have h: "plain_words bare_env"
    by (rule bare_env_facts)
  show ?thesis
    using h c_linkage_in_every_branch [OF h, of "\<lambda>d. ''_Z'' @ fname d"] by simp
qed

section \<open>The branches of \<open>IMGUI_TESTAPP_API\<close>\<close>

text \<open>
  Claim C8. On a toolchain that defines none of \<open>_WIN32\<close>, \<open>__GNUC__\<close>, \<open>__clang__\<close>,
  the macro \<open>IMGUI_TESTAPP_API\<close> is \<open>extern "C"\<close> alone, and the declaration carries
  no export or visibility attribute.
\<close>

theorem fallback_branch_is_extern_c_alone:
  assumes "\<not> is_defined env ''_WIN32''" "\<not> is_defined env ''__GNUC__''"
    "\<not> is_defined env ''__clang__''"
  shows "api_macro env = Some [Ident ''extern'', StrLit ''C'']
         \<and> (plain_words env \<longrightarrow>
              map (map_option attribute) (declarations env) = [Some None])"
  using assms
  by (simp add: api_macro_plain plain_body_def declarations_plain)

theorem fallback_branch_is_extern_c_alone_witness:
  "\<not> is_defined bare_env ''_WIN32'' \<and> \<not> is_defined bare_env ''__GNUC__''
   \<and> \<not> is_defined bare_env ''__clang__''
   \<and> api_macro bare_env = Some [Ident ''extern'', StrLit ''C'']
   \<and> map (map_option attribute) (declarations bare_env) = [Some None]"
  using fallback_branch_is_extern_c_alone [OF bare_env_facts(2,3,4)] bare_env_facts
  by simp

text \<open>
  Claim C9. When \<open>_WIN32\<close> is defined the macro \<open>IMGUI_TESTAPP_API\<close> is
  \<open>extern "C" __declspec(dllexport)\<close>, whether or not \<open>__GNUC__\<close> or \<open>__clang__\<close> is
  defined as well: the Windows branch comes first in the chain.
\<close>

theorem win32_branch_takes_precedence:
  assumes "is_defined env ''_WIN32''"
  shows "api_macro env =
           Some [Ident ''extern'', StrLit ''C'',
                 Ident ''__declspec'', LParen, Ident ''dllexport'', RParen]
         \<and> (plain_words env \<longrightarrow>
              map (map_option attribute) (declarations env)
                = [Some (Some (Declspec ''dllexport''))])"
  using assms
  by (simp add: api_macro_win32 win32_body_def declarations_win32)

theorem win32_branch_takes_precedence_witness:
  "is_defined mingw_env ''_WIN32'' \<and> is_defined mingw_env ''__GNUC__''
   \<and> api_macro mingw_env =
       Some [Ident ''extern'', StrLit ''C'',
             Ident ''__declspec'', LParen, Ident ''dllexport'', RParen]
   \<and> map (map_option attribute) (declarations mingw_env)
       = [Some (Some (Declspec ''dllexport''))]"
  using win32_branch_takes_precedence [OF mingw_env_facts(2)] mingw_env_facts
  by simp

section \<open>Repeated inclusion\<close>

lemma once_files_line:
  "x \<in> set (once_files st) \<Longrightarrow> x \<in> set (once_files (process_line p l st))"
  by (cases l) (auto simp add: define_macro_fields split: list.splits group.splits)

lemma once_files_lines:
  "x \<in> set (once_files st) \<Longrightarrow> x \<in> set (once_files (process_lines p ls st))"
  by (induction ls arbitrary: st) (simp_all add: once_files_line)

text \<open>The header's first line marks the file, and no later line takes the mark away.\<close>

lemma include_header_marks:
  assumes "active st"
  shows "header_path \<in> set (once_files (include_header st))"
proof (cases "header_path \<in> set (once_files st)")
  case True
  then show ?thesis
    by (simp add: include_header_def include_file_def)
next
  case False
  have "header_path \<in> set (once_files (process_line header_path PragmaOnce st))"
    using assms by simp
  then have "header_path \<in> set (once_files
      (process_lines header_path (tl imgui_testapp_api_h)
         (process_line header_path PragmaOnce st)))"
    by (rule once_files_lines)
  moreover have "imgui_testapp_api_h = PragmaOnce # tl imgui_testapp_api_h"
    by (simp add: imgui_testapp_api_h_def)
  ultimately have
    "header_path \<in> set (once_files (process_lines header_path imgui_testapp_api_h st))"
    by (metis process_lines.simps(2))
  with False show ?thesis
    by (simp add: include_header_def include_file_def)
qed

lemma include_times_marked:
  "header_path \<in> set (once_files st) \<Longrightarrow> include_times k st = st"
  by (induction k) (simp_all add: include_header_def include_file_def)

lemma include_times_once:
  "active st \<Longrightarrow> include_times (Suc k) st = include_header st"
  by (simp add: include_times_marked include_header_marks)

text \<open>The whole state after one inclusion, when the macro's name was free before.\<close>

lemma header_state:
  assumes "map_of env ''IMGUI_TESTAPP_API'' = None"
  shows "\<exists>body. include_header (initial env) =
     \<lparr>macros = (''IMGUI_TESTAPP_API'', body) # env, conds = [],
      emitted = expand ((''IMGUI_TESTAPP_API'', body) # env)
         [Ident ''IMGUI_TESTAPP_API'', Ident ''int'', Ident ''imgui_testapp_run'',
          LParen, Ident ''void'', RParen, Semi],
      once_files = [header_path], errors = []\<rparr>"
proof (cases "is_defined env ''_WIN32''")
  case True
  with assms show ?thesis
    by (simp add: include_header_def include_file_def imgui_testapp_api_h_def initial_def
        active_def define_macro_fresh)
next
  case no_win: False
  show ?thesis
  proof (cases "is_defined env ''__GNUC__''")
    case True
    with assms no_win show ?thesis
      by (simp add: include_header_def include_file_def imgui_testapp_api_h_def initial_def
          active_def define_macro_fresh)
  next
    case no_gnuc: False
    show ?thesis
    proof (cases "is_defined env ''__clang__''")
      case True
      with assms no_win no_gnuc show ?thesis
        by (simp add: include_header_def include_file_def imgui_testapp_api_h_def initial_def
            active_def define_macro_fresh)
    next
      case False
      with assms no_win no_gnuc show ?thesis
        by (simp add: include_header_def include_file_def imgui_testapp_api_h_def initial_def
            active_def define_macro_fresh)
    qed
  qed
qed

lemma no_entry: "map_of ms n = None \<Longrightarrow> filter (\<lambda>m. fst m = n) ms = []"
  by (induction ms) (auto split: if_splits)

text \<open>For contrast: the same lines without the first one, read twice, declare twice.\<close>

lemma without_pragma_once_twice:
  "length (declarations_in
     (process_lines header_path (tl imgui_testapp_api_h)
        (process_lines header_path (tl imgui_testapp_api_h) (initial bare_env)))) = 2"
  by (simp add: imgui_testapp_api_h_def initial_def active_def define_macro_def bare_env_def
      is_defined_def expand_def plain_body_def declarations_in_def)

text \<open>
  Claim C10. The header starts with \<open>#pragma once\<close>, so a translation unit that includes
  it any number of times (at least once) ends in the state of a single inclusion: the
  declaration line is emitted once and read as the same declarations, the macro table
  holds one definition of \<open>IMGUI_TESTAPP_API\<close>, and no redefinition is reported.
\<close>

theorem pragma_once_single_inclusion:
  assumes "map_of env ''IMGUI_TESTAPP_API'' = None"
  shows "include_times (Suc k) (initial env) = include_header (initial env)
         \<and> emitted (include_times (Suc k) (initial env)) =
             expand (macros (include_header (initial env)))
               [Ident ''IMGUI_TESTAPP_API'', Ident ''int'', Ident ''imgui_testapp_run'',
                LParen, Ident ''void'', RParen, Semi]
         \<and> declarations_in (include_times (Suc k) (initial env)) = declarations env
         \<and> length (filter (\<lambda>m. fst m = ''IMGUI_TESTAPP_API'')
                     (macros (include_times (Suc k) (initial env)))) = 1
         \<and> errors (include_times (Suc k) (initial env)) = []"
proof -
  have "active (initial env)"
    by (simp add: active_def initial_def)
  then have once: "include_times (Suc k) (initial env) = include_header (initial env)"
    by (rule include_times_once)
  obtain body where st: "include_header (initial env) =
     \<lparr>macros = (''IMGUI_TESTAPP_API'', body) # env, conds = [],
      emitted = expand ((''IMGUI_TESTAPP_API'', body) # env)
         [Ident ''IMGUI_TESTAPP_API'', Ident ''int'', Ident ''imgui_testapp_run'',
          LParen, Ident ''void'', RParen, Semi],
      once_files = [header_path], errors = []\<rparr>"
    using header_state [OF assms] by blast
  have "filter (\<lambda>m. fst m = ''IMGUI_TESTAPP_API'') env = []"
    using assms by (rule no_entry)
  with once st show ?thesis
    by (simp add: declarations_def)
qed

theorem pragma_once_single_inclusion_witness:
  "map_of linux_gcc_env ''IMGUI_TESTAPP_API'' = None
   \<and> include_times 3 (initial linux_gcc_env) = include_header (initial linux_gcc_env)
   \<and> declarations_in (include_times 3 (initial linux_gcc_env)) =
       [Some \<lparr>linkage = Some ''C'', attribute = Some (GnuAttribute ''visibility'' ''default''),
              ret = CInt, fname = ''imgui_testapp_run'', params = []\<rparr>]
   \<and> errors (include_times 3 (initial linux_gcc_env)) = []"
proof -
  have h: "map_of linux_gcc_env ''IMGUI_TESTAPP_API'' = None"
    by (simp add: linux_gcc_env_def)
  note once = pragma_once_single_inclusion [OF h, of 2]
  have d: "declarations linux_gcc_env =
       [Some \<lparr>linkage = Some ''C'', attribute = Some (GnuAttribute ''visibility'' ''default''),
              ret = CInt, fname = ''imgui_testapp_run'', params = []\<rparr>]"
    using linux_gcc_env_facts by (simp add: declarations_gnu)
  have s: "include_times (Suc 2) (initial linux_gcc_env) = include_header (initial linux_gcc_env)"
    using once by blast
  have r: "declarations_in (include_times (Suc 2) (initial linux_gcc_env))
            = declarations linux_gcc_env"
    using once by blast
  have e: "errors (include_times (Suc 2) (initial linux_gcc_env)) = []"
    using once by blast
  have three: "(3::nat) = Suc 2"
    by simp
  show ?thesis
    unfolding three using h s r e d by (simp only:)
qed

section \<open>Properties of a call\<close>

lemma run_loop_first_exit:
  "run_loop evs =
     (case first_exit evs of
        None \<Rightarrow> None
      | Some FrameDrawn \<Rightarrow> None
      | Some WindowClosed \<Rightarrow> Some (Inr ())
      | Some LoopAborted \<Rightarrow> Some (Inl UnexpectedTermination))"
  by (induction evs rule: run_loop.induct) (simp_all add: first_exit_def)

lemma first_exit_not_frame: "first_exit evs \<noteq> Some FrameDrawn"
  by (induction evs) (simp_all add: first_exit_def)

lemma first_exit_None: "first_exit evs = None \<longleftrightarrow> list_all (\<lambda>e. e = FrameDrawn) evs"
  by (induction evs) (simp_all add: first_exit_def)

text \<open>A call whose run-loop never starts returns at once, the process as it was.\<close>

lemma run_not_started:
  "\<not> loop_started b p \<Longrightarrow> imgui_testapp_run b evs p = Returned (Status 1) p"
  by (cases p)
    (auto simp add: loop_started_def imgui_testapp_run_def gui_main_def create_window_def
      create_context_def destroy_window_def status_of_def split: if_splits)

text \<open>A call whose run-loop starts holds a window and a context until the first event
  that ends the loop.\<close>

lemma run_started:
  "loop_started b p \<Longrightarrow> imgui_testapp_run b evs p =
     (case first_exit evs of
        None \<Rightarrow> Blocked (p\<lparr>running := True, windows := Suc (windows p),
                            contexts := Suc (contexts p)\<rparr>)
      | Some FrameDrawn \<Rightarrow> Blocked (p\<lparr>running := True, windows := Suc (windows p),
                            contexts := Suc (contexts p)\<rparr>)
      | Some WindowClosed \<Rightarrow> Returned (Status 0) p
      | Some LoopAborted \<Rightarrow> Returned (Status 1) p)"
  by (cases p)
    (auto simp add: loop_started_def imgui_testapp_run_def gui_main_def create_window_def
      create_context_def destroy_window_def destroy_context_def status_of_def
      run_loop_first_exit split: if_splits option.splits loop_event.splits)

text \<open>A failure raised inside the run comes out of the call as the status \<open>1\<close>, and
  nothing comes out of a call as a failure.\<close>

lemma failure_caught:
  "gui_main b evs p = Returned (Inl f) q \<Longrightarrow> imgui_testapp_run b evs p = Returned (Status 1) q"
  by (simp add: imgui_testapp_run_def status_of_def)

lemma nothing_propagates:
  "imgui_testapp_run b evs p \<noteq> Returned (Propagated f) q"
  by (simp add: imgui_testapp_run_def split: call.split)

lemma input_facts:
  "loop_started working_backend idle_process"
  "\<not> loop_started headless_backend idle_process"
  "\<not> loop_started working_backend busy_process"
  by (simp_all add: loop_started_def working_backend_def headless_backend_def
      idle_process_def busy_process_def)

text \<open>
  Claim C4 (on the model of the call). A call is blocking: it has returned exactly when
  its run-loop was never started or an event has ended the run-loop; while the window
  only draws frames, control stays inside the call.
\<close>

theorem call_blocks_until_loop_exit:
  "is_returned (imgui_testapp_run b evs p) \<longleftrightarrow>
     \<not> loop_started b p \<or> \<not> list_all (\<lambda>e. e = FrameDrawn) evs"
proof (cases "loop_started b p")
  case False
  then show ?thesis
    by (simp add: run_not_started is_returned_def)
next
  case True
  then show ?thesis
    using first_exit_not_frame [of evs] first_exit_None [of evs]
    by (cases "first_exit evs")
      (auto simp add: run_started is_returned_def split: loop_event.splits)
qed

theorem call_blocks_until_loop_exit_witness:
  "\<not> is_returned (imgui_testapp_run working_backend [FrameDrawn, FrameDrawn] idle_process)
   \<and> is_returned
       (imgui_testapp_run working_backend [FrameDrawn, WindowClosed, FrameDrawn] idle_process)"
  using call_blocks_until_loop_exit [of working_backend "[FrameDrawn, FrameDrawn]" idle_process]
    call_blocks_until_loop_exit
      [of working_backend "[FrameDrawn, WindowClosed, FrameDrawn]" idle_process]
    input_facts(1)
  by simp

text \<open>
  Claim C5 (on the model of the call). Each failure kind: a call made while a run is in
  progress, a backend that fails to initialize, a run-loop that ends unexpectedly: makes
  the call return, with a non-zero integer status and the process as it was; every
  failure raised inside the run is turned into such a status; and no call ends with a
  failure propagating to the caller.
\<close>

theorem failures_return_nonzero_status:
  "(running p \<or> \<not> windowing_ok b \<or> \<not> graphics_ok b \<or> first_exit evs = Some LoopAborted
      \<longrightarrow> (\<exists>s. imgui_testapp_run b evs p = Returned (Status s) p \<and> s \<noteq> 0))
   \<and> (gui_main b evs p = Returned (Inl f) q
      \<longrightarrow> (\<exists>s. imgui_testapp_run b evs p = Returned (Status s) q \<and> s \<noteq> 0))
   \<and> imgui_testapp_run b evs p \<noteq> Returned (Propagated f') q'"
proof -
  have kinds: "\<exists>s. imgui_testapp_run b evs p = Returned (Status s) p \<and> s \<noteq> 0"
    if fails: "running p \<or> \<not> windowing_ok b \<or> \<not> graphics_ok b
               \<or> first_exit evs = Some LoopAborted"
  proof (cases "loop_started b p")
    case False
    then show ?thesis
      by (simp add: run_not_started)
  next
    case True
    then have "first_exit evs = Some LoopAborted"
      using fails by (auto simp add: loop_started_def split: if_splits)
    with True show ?thesis
      by (simp add: run_started)
  qed
  have caught: "\<exists>s. imgui_testapp_run b evs p = Returned (Status s) q \<and> s \<noteq> 0"
    if "gui_main b evs p = Returned (Inl f) q"
    using that by (simp add: failure_caught)
  from kinds caught nothing_propagates [of b evs p f' q'] show ?thesis
    by blast
qed

theorem failures_return_nonzero_status_witness:
  "(\<exists>s. imgui_testapp_run working_backend [] busy_process = Returned (Status s) busy_process
          \<and> s \<noteq> 0)
   \<and> (\<exists>s. imgui_testapp_run headless_backend [] idle_process = Returned (Status s) idle_process
          \<and> s \<noteq> 0)
   \<and> (\<exists>s. imgui_testapp_run working_backend [FrameDrawn, LoopAborted] idle_process
            = Returned (Status s) idle_process \<and> s \<noteq> 0)
   \<and> gui_main headless_backend [] idle_process = Returned (Inl InitFailure) idle_process
   \<and> imgui_testapp_run headless_backend [] idle_process
       \<noteq> Returned (Propagated InitFailure) idle_process"
proof -
  have a: "running busy_process"
    by (simp add: busy_process_def)
  have b: "\<not> graphics_ok headless_backend"
    by (simp add: headless_backend_def)
  have c: "first_exit [FrameDrawn, LoopAborted] = Some LoopAborted"
    by (simp add: first_exit_def)
  have d: "gui_main headless_backend [] idle_process = Returned (Inl InitFailure) idle_process"
    by (simp add: gui_main_def create_window_def create_context_def destroy_window_def
        headless_backend_def idle_process_def)
  show ?thesis
    using failures_return_nonzero_status
        [of busy_process working_backend "[]" InitFailure busy_process InitFailure busy_process]
      failures_return_nonzero_status
        [of idle_process headless_backend "[]" InitFailure idle_process InitFailure idle_process]
      failures_return_nonzero_status
        [of idle_process working_backend "[FrameDrawn, LoopAborted]"
            InitFailure idle_process InitFailure idle_process]
      a b c d
    by blast
qed

text \<open>
  Claim C6 (on the model of the call). The status is \<open>0\<close> when the run-loop ends because
  the window was closed, and a returned status is \<open>0\<close> only then: every other return
  (a failure) has a non-zero status.
\<close>

theorem status_zero_iff_window_closed:
  "(loop_started b p \<and> first_exit evs = Some WindowClosed
      \<longrightarrow> imgui_testapp_run b evs p = Returned (Status 0) p)
   \<and> (imgui_testapp_run b evs p = Returned r q
      \<longrightarrow> (\<exists>s. r = Status s
             \<and> (s = 0 \<longleftrightarrow> loop_started b p \<and> first_exit evs = Some WindowClosed)))"
proof -
  let ?run = "imgui_testapp_run b evs p"
  let ?closed = "loop_started b p \<and> first_exit evs = Some WindowClosed"
  have failed: ?thesis if eq: "?run = Returned (Status 1) p" and no: "\<not> ?closed"
  proof (intro conjI impI)
    assume ?closed
    with no show "?run = Returned (Status 0) p"
      by simp
  next
    assume "?run = Returned r q"
    with eq have "r = Status 1"
      by simp
    with no show "\<exists>s. r = Status s \<and> (s = 0 \<longleftrightarrow> ?closed)"
      by simp
  qed
  show ?thesis
  proof (cases "loop_started b p")
    case False
    then have "?run = Returned (Status 1) p"
      by (rule run_not_started)
    with False show ?thesis
      by (intro failed) simp_all
  next
    case True
    show ?thesis
    proof (cases "first_exit evs")
      case None
      with True have "?run = Blocked (p\<lparr>running := True, windows := Suc (windows p),
                            contexts := Suc (contexts p)\<rparr>)"
        by (simp add: run_started)
      with None show ?thesis
        by simp
    next
      case (Some e)
      show ?thesis
      proof (cases e)
        case FrameDrawn
        with Some first_exit_not_frame [of evs] show ?thesis
          by simp
      next
        case WindowClosed
        with Some True have eq: "?run = Returned (Status 0) p"
          by (simp add: run_started)
        show ?thesis
        proof (intro conjI impI)
          show "?run = Returned (Status 0) p"
            by (rule eq)
        next
          assume "?run = Returned r q"
          with eq have "r = Status 0"
            by simp
          with True Some WindowClosed
          show "\<exists>s. r = Status s \<and> (s = 0 \<longleftrightarrow> ?closed)"
            by simp
        qed
      next
        case LoopAborted
        with Some True have "?run = Returned (Status 1) p"
          by (simp add: run_started)
        with Some LoopAborted show ?thesis
          by (intro failed) simp_all
      qed
    qed
  qed
qed

theorem status_zero_iff_window_closed_witness:
  "loop_started working_backend idle_process
   \<and> first_exit [FrameDrawn, WindowClosed] = Some WindowClosed
   \<and> imgui_testapp_run working_backend [FrameDrawn, WindowClosed] idle_process
       = Returned (Status 0) idle_process"
proof -
  have a: "loop_started working_backend idle_process"
    by (rule input_facts(1))
  have c: "first_exit [FrameDrawn, WindowClosed] = Some WindowClosed"
    by (simp add: first_exit_def)
  have "imgui_testapp_run working_backend [FrameDrawn, WindowClosed] idle_process
       = Returned (Status 0) idle_process"
    using status_zero_iff_window_closed
      [of working_backend idle_process "[FrameDrawn, WindowClosed]" "Status 0" idle_process]
      a c
    by blast
  with a c show ?thesis
    by (intro conjI)
qed

text \<open>
  Claim C7 (on the model of the call). When a call has returned, with whatever status,
  the process is as it was before the call: the window and the graphics context it
  created are gone and the guard is released; nothing but the status remains.
\<close>

theorem resources_released_on_return:
  assumes "imgui_testapp_run b evs p = Returned s q"
  shows "q = p"
proof (cases "loop_started b p")
  case False
  with assms show ?thesis
    by (simp add: run_not_started)
next
  case True
  with assms show ?thesis
    using first_exit_not_frame [of evs]
    by (cases "first_exit evs")
      (auto simp add: run_started split: loop_event.splits)
qed

theorem resources_released_on_return_witness:
  "imgui_testapp_run headless_backend [FrameDrawn] idle_process
     = Returned (Status 1) idle_process
   \<and> idle_process = idle_process"
proof -
  have h: "imgui_testapp_run headless_backend [FrameDrawn] idle_process
            = Returned (Status 1) idle_process"
    using input_facts(2) by (rule run_not_started)
  show ?thesis
    using h resources_released_on_return [OF h] by simp
qed

end
